theory Spec2Isabelle
  imports Complex_Main "HOL-Library.Sublist" "HOL-Library.Multiset"
begin

section \<open>Data model\<close>

text \<open>
  \<^verbatim>\<open>src/types/index.ts\<close>: the interface \<^verbatim>\<open>IBook\<close>. A field marked \<^verbatim>\<open>?\<close> in the
  interface is an \<open>option\<close>. The fields \<^verbatim>\<open>title\<close>, \<^verbatim>\<open>author\<close> and \<^verbatim>\<open>price\<close> are
  declared without \<^verbatim>\<open>?\<close>, but the records arrive as JSON and the explorer reads each of
  them through \<^verbatim>\<open>?? ''\<close> or \<^verbatim>\<open>?? 0\<close>; they are options here too, so that the
  defaulting branch of the code is a branch of the model. The field \<^verbatim>\<open>id\<close> is \<open>book_id\<close>
  here.

  A JavaScript \<^verbatim>\<open>number\<close> read from JSON is a finite double. The explorer only compares
  such numbers and takes the sign of a difference of two of them, and on finite doubles
  both agree with the same operation on the reals they denote; a number field is a
  \<open>real\<close>. The one place where \<^verbatim>\<open>NaN\<close> arises is \<^verbatim>\<open>Date.parse\<close>, whose result has the
  type \<open>number\<close> below.
\<close>

record IBook =
  book_id :: int
  title :: "string option"
  author :: "string option"
  price :: "real option"
  description :: "string option"
  rating :: "real option"
  reviewCount :: "nat option"
  pages :: "nat option"
  genre :: "string option"
  isbn :: "string option"
  publishedDate :: "string option"
  publisher :: "string option"
  coverImage :: "string option"

text \<open>
  \<^verbatim>\<open>FilterOptions\<close> of \<^verbatim>\<open>BookSearch\<close>. \<^verbatim>\<open>sortBy\<close> and \<^verbatim>\<open>sortOrder\<close> are strings at run
  time (they come from splitting the value of a select box), and the code tests them for
  truthiness and against literals, so they stay strings. The bounds of \<^verbatim>\<open>priceRange\<close> are
  options because the code asks \<^verbatim>\<open>typeof min === 'number'\<close> of each. The fields \<^verbatim>\<open>genre\<close>
  and \<^verbatim>\<open>rating\<close> are \<open>genreF\<close> and \<open>ratingF\<close> here, the plain names being those of the
  book's fields.
\<close>

record FilterOptions =
  genreF :: "string option"
  priceRange :: "(real option \<times> real option) option"
  ratingF :: "real option"
  sortBy :: "string option"
  sortOrder :: "string option"

definition noFilters :: FilterOptions where
  "noFilters = \<lparr>genreF = None, priceRange = None, ratingF = None, sortBy = None, sortOrder = None\<rparr>"

datatype number = NaN | Num real

fun num_minus :: "number \<Rightarrow> number \<Rightarrow> number" where
  "num_minus (Num x) (Num y) = Num (x - y)"
| "num_minus _ _ = NaN"

fun num_times :: "number \<Rightarrow> number \<Rightarrow> number" where
  "num_times (Num x) (Num y) = Num (x * y)"
| "num_times _ _ = NaN"

section \<open>JavaScript primitives used by the explorer\<close>

text \<open>The operator \<^verbatim>\<open>??\<close> with a literal on its right.\<close>

definition orElse :: "'a option \<Rightarrow> 'a \<Rightarrow> 'a" where
  "orElse v d = (case v of None \<Rightarrow> d | Some x \<Rightarrow> x)"

text \<open>Truthiness of an optional string and of an optional number.\<close>

definition truthyS :: "string option \<Rightarrow> bool" where
  "truthyS v = (case v of None \<Rightarrow> False | Some s \<Rightarrow> s \<noteq> [])"

definition truthyN :: "real option \<Rightarrow> bool" where
  "truthyN v = (case v of None \<Rightarrow> False | Some x \<Rightarrow> x \<noteq> 0)"

text \<open>
  Strings are lists of 8-bit characters. \<^verbatim>\<open>toLowerCase\<close> and \<^verbatim>\<open>trim\<close> are given on
  ASCII text: the letters \<open>A\<close> to \<open>Z\<close> (codes 65 to 90) are mapped to \<open>a\<close> to \<open>z\<close> by
  setting the bit of weight 32, and the white space removed at both ends is space, tab,
  line feed, vertical tab, form feed and carriage return.
\<close>

fun lowerChar :: "char \<Rightarrow> char" where
  "lowerChar (Char b0 b1 b2 b3 b4 b5 b6 b7) =
     (let n = (of_char (Char b0 b1 b2 b3 b4 b5 b6 b7) :: nat)
      in if 65 \<le> n \<and> n \<le> 90 then Char b0 b1 b2 b3 b4 True b6 b7
         else Char b0 b1 b2 b3 b4 b5 b6 b7)"

definition toLowerCase :: "string \<Rightarrow> string" where
  "toLowerCase s = map lowerChar s"

definition isWhiteSpace :: "char \<Rightarrow> bool" where
  "isWhiteSpace c = (let n = (of_char c :: nat) in n = 32 \<or> (9 \<le> n \<and> n \<le> 13))"

definition trim :: "string \<Rightarrow> string" where
  "trim s = rev (dropWhile isWhiteSpace (rev (dropWhile isWhiteSpace s)))"

text \<open>\<^verbatim>\<open>String.prototype.includes\<close>: the search string occurs at some position.\<close>

fun String_includes :: "string \<Rightarrow> string \<Rightarrow> bool" where
  "String_includes [] t = (t = [])"
| "String_includes (c # s) t = (prefix t (c # s) \<or> String_includes s t)"

text \<open>
  \<^verbatim>\<open>Array.prototype.sort\<close> with a comparator. ECMAScript (since 2019) requires the sort
  to be stable, and reads a comparator result \<^verbatim>\<open>NaN\<close> as \<open>+0\<close>. For a consistent comparator
  the result is then determined: it is the one stable sorted arrangement, which insertion
  from the right computes. For an inconsistent comparator (one that returns \<^verbatim>\<open>NaN\<close> for an
  unparsable date next to dates that parse) ECMAScript leaves the order to the
  implementation, and an engine's order differs from the insertion order; \<open>Array_sort\<close>
  stands for the program's sort only where the comparator is consistent.
\<close>

definition sortCompare :: "number \<Rightarrow> real" where
  "sortCompare v = (case v of NaN \<Rightarrow> 0 | Num x \<Rightarrow> x)"

fun insertSorted :: "('a \<Rightarrow> 'a \<Rightarrow> number) \<Rightarrow> 'a \<Rightarrow> 'a list \<Rightarrow> 'a list" where
  "insertSorted cmp x [] = [x]"
| "insertSorted cmp x (y # ys) =
     (if sortCompare (cmp x y) \<le> 0 then x # y # ys else y # insertSorted cmp x ys)"

definition Array_sort :: "('a \<Rightarrow> 'a \<Rightarrow> number) \<Rightarrow> 'a list \<Rightarrow> 'a list" where
  "Array_sort cmp xs = foldr (insertSorted cmp) xs []"

section \<open>The query engine: \<^verbatim>\<open>filteredBooks\<close> of \<^verbatim>\<open>BooksExplorer\<close>\<close>

text \<open>
  \<^verbatim>\<open>String.prototype.localeCompare\<close> and \<^verbatim>\<open>Date.parse\<close> belong to the platform, not to the
  repository; they are the parameters \<open>localeCompare\<close> (negative, zero or positive) and
  \<open>parse\<close> (a time stamp in milliseconds, or \<open>NaN\<close> for a string that is no date).

  The body of the \<^verbatim>\<open>useMemo\<close> that computes \<^verbatim>\<open>filteredBooks\<close> is a chain of five steps, each
  assigning \<^verbatim>\<open>result\<close> anew under its own guard. Each step is one function here, in the
  order of the source, and \<open>filteredBooks\<close> is their composition; \<open>compareBooks\<close> is the
  arrow function handed to \<^verbatim>\<open>sort\<close>, with \<open>dateStamp\<close> for its \<^verbatim>\<open>ad\<close> and \<^verbatim>\<open>bd\<close>.
\<close>

definition normalizedQuery :: "string \<Rightarrow> string" where
  "normalizedQuery query = toLowerCase (trim query)"

definition haystack :: "IBook \<Rightarrow> string" where
  "haystack b =
     toLowerCase (orElse (title b) [] @ '' '' @ orElse (author b) [] @ '' '' @ orElse (isbn b) [])"

definition textStage :: "string \<Rightarrow> IBook list \<Rightarrow> IBook list" where
  "textStage nq result =
     (if nq \<noteq> [] then filter (\<lambda>b. String_includes (haystack b) nq) result else result)"

definition genreStage :: "FilterOptions \<Rightarrow> IBook list \<Rightarrow> IBook list" where
  "genreStage filters result =
     (if truthyS (genreF filters)
      then filter (\<lambda>b. toLowerCase (orElse (genre b) []) = toLowerCase (the (genreF filters))) result
      else result)"

definition priceStage :: "FilterOptions \<Rightarrow> IBook list \<Rightarrow> IBook list" where
  "priceStage filters result =
     (case priceRange filters of
        None \<Rightarrow> result
      | Some (minP, maxP) \<Rightarrow>
          if truthyN minP \<or> truthyN maxP
          then filter (\<lambda>b.
                 let price = orElse (price b) 0;
                     meetsMin = (case minP of Some lo \<Rightarrow> price \<ge> lo | None \<Rightarrow> True);
                     meetsMax = (case maxP of Some hi \<Rightarrow> price \<le> hi | None \<Rightarrow> True)
                 in meetsMin \<and> meetsMax) result
          else result)"

definition ratingStage :: "FilterOptions \<Rightarrow> IBook list \<Rightarrow> IBook list" where
  "ratingStage filters result =
     (if truthyN (ratingF filters)
      then filter (\<lambda>b. orElse (rating b) 0 \<ge> the (ratingF filters)) result
      else result)"

definition dateStamp :: "(string \<Rightarrow> number) \<Rightarrow> IBook \<Rightarrow> number" where
  "dateStamp parse a = (if truthyS (publishedDate a) then parse (the (publishedDate a)) else Num 0)"

definition compareBooks ::
  "(string \<Rightarrow> string \<Rightarrow> int) \<Rightarrow> (string \<Rightarrow> number) \<Rightarrow> FilterOptions \<Rightarrow> IBook \<Rightarrow> IBook \<Rightarrow> number" where
  "compareBooks localeCompare parse filters a b =
     (let order = (if sortOrder filters = Some ''desc'' then Num (-1) else Num 1);
          key = the (sortBy filters)
      in if key = ''author''
           then num_times (Num (of_int (localeCompare (orElse (author a) []) (orElse (author b) [])))) order
         else if key = ''price''
           then num_times (Num (orElse (price a) 0 - orElse (price b) 0)) order
         else if key = ''rating''
           then num_times (Num (orElse (rating a) 0 - orElse (rating b) 0)) order
         else if key = ''date''
           then num_times (num_minus (dateStamp parse a) (dateStamp parse b)) order
         else num_times (Num (of_int (localeCompare (orElse (title a) []) (orElse (title b) [])))) order)"

definition sortStage ::
  "(string \<Rightarrow> string \<Rightarrow> int) \<Rightarrow> (string \<Rightarrow> number) \<Rightarrow> FilterOptions \<Rightarrow> IBook list \<Rightarrow> IBook list" where
  "sortStage localeCompare parse filters result =
     (if truthyS (sortBy filters)
      then Array_sort (compareBooks localeCompare parse filters) result
      else result)"

definition filteredBooks ::
  "(string \<Rightarrow> string \<Rightarrow> int) \<Rightarrow> (string \<Rightarrow> number) \<Rightarrow> IBook list \<Rightarrow> string \<Rightarrow> FilterOptions \<Rightarrow> IBook list" where
  "filteredBooks localeCompare parse books query filters =
     sortStage localeCompare parse filters
       (ratingStage filters
         (priceStage filters
           (genreStage filters
             (textStage (normalizedQuery query) books))))"

section \<open>The controller: optimistic delete in \<^verbatim>\<open>BooksExplorer\<close>\<close>

text \<open>
  The state of the component \<^verbatim>\<open>BooksExplorer\<close>: its four \<^verbatim>\<open>useState\<close> cells. The view
  it renders is \<open>filteredBooks\<close> of \<open>books\<close>, \<open>query\<close> and \<open>filters\<close>.
\<close>

record BooksExplorer =
  query :: string
  filters :: FilterOptions
  books :: "IBook list"
  isRefreshing :: bool

definition displayed ::
  "(string \<Rightarrow> string \<Rightarrow> int) \<Rightarrow> (string \<Rightarrow> number) \<Rightarrow> BooksExplorer \<Rightarrow> IBook list" where
  "displayed localeCompare parse st = filteredBooks localeCompare parse (books st) (query st) (filters st)"

text \<open>
  A thrown value is an \<^verbatim>\<open>Error\<close> with its message. An awaited promise either resolves to
  a value or rejects with an error.
\<close>

datatype js_error = Error string

datatype 'a awaited = Resolved 'a | Rejected js_error

text \<open>
  \<^verbatim>\<open>src/lib/actions/deleteBookAction.ts\<close>. The data layer's \<^verbatim>\<open>deleteBook\<close> talks to the
  remote store; what it does for an id is the parameter \<open>deleteBook\<close>. The action turns a
  rejection into a failure result with a fixed reason, and never rejects itself.
\<close>

record delete_result =
  success :: bool
  error :: "string option"

definition deleteBookAction :: "(int \<Rightarrow> unit awaited) \<Rightarrow> int \<Rightarrow> delete_result" where
  "deleteBookAction deleteBook i =
     (case deleteBook i of
        Resolved u \<Rightarrow> \<lparr>success = True, error = None\<rparr>
      | Rejected e \<Rightarrow> \<lparr>success = False, error = Some ''Failed to delete book''\<rparr>)"

text \<open>
  The answer to \<^verbatim>\<open>fetch('/api/books')\<close>: the flag \<^verbatim>\<open>ok\<close> and the outcome of
  \<^verbatim>\<open>response.json()\<close>, of which the code reads the field \<^verbatim>\<open>data\<close> only.
\<close>

datatype fetch_response = Response (ok: bool) (json: "IBook list option awaited")

text \<open>
  \<^verbatim>\<open>revalidateBooks\<close>: every exception of the \<^verbatim>\<open>try\<close> block is caught and logged, and
  the \<^verbatim>\<open>finally\<close> block resets \<open>isRefreshing\<close>; the function has no failing outcome.
\<close>

definition revalidateBooks :: "fetch_response awaited \<Rightarrow> BooksExplorer \<Rightarrow> BooksExplorer" where
  "revalidateBooks fetched st =
     (let st1 = st\<lparr>isRefreshing := True\<rparr>;
          st2 = (case fetched of
                   Rejected e \<Rightarrow> st1
                 | Resolved response \<Rightarrow>
                     if ok response
                     then (case json response of
                             Rejected e \<Rightarrow> st1
                           | Resolved freshData \<Rightarrow> st1\<lparr>books := orElse freshData []\<rparr>)
                     else st1)
      in st2\<lparr>isRefreshing := False\<rparr>)"

text \<open>
  \<^verbatim>\<open>handleDeleteBook\<close>. Its synchronous part, up to the first \<^verbatim>\<open>await\<close>, is
  \<open>handleDeleteBook_pending\<close>: the state every render sees while the remote call is in
  flight. \<open>handleDeleteBook\<close> is the whole call: \<open>called\<close> is the outcome of awaiting the
  import and the call of \<^verbatim>\<open>deleteBookAction\<close> from the client, \<open>fetched\<close> the outcome of the
  reconciliation fetch. The result is \<open>Inl\<close> of the error the promise rejects with, or
  \<open>Inr ()\<close>, and the state at that moment. The snapshot \<open>originalBooks\<close> is the \<open>books\<close> of
  the render the handler was created in, which is the current state when no other update
  is in flight.
\<close>

definition handleDeleteBook_pending :: "int \<Rightarrow> BooksExplorer \<Rightarrow> BooksExplorer" where
  "handleDeleteBook_pending i st = st\<lparr>books := filter (\<lambda>book. book_id book \<noteq> i) (books st)\<rparr>"

definition handleDeleteBook ::
  "delete_result awaited \<Rightarrow> fetch_response awaited \<Rightarrow> int \<Rightarrow> BooksExplorer \<Rightarrow>
   (js_error + unit) \<times> BooksExplorer" where
  "handleDeleteBook called fetched i st =
     (let originalBooks = books st;
          st1 = handleDeleteBook_pending i st
      in case called of
           Rejected e \<Rightarrow> (Inl e, st1\<lparr>books := originalBooks\<rparr>)
         | Resolved result \<Rightarrow>
             if \<not> success result
             then (let st2 = st1\<lparr>books := originalBooks\<rparr>;
                       e = Error (if truthyS (error result) then the (error result)
                                  else ''Delete failed'')
                   in (Inl e, st2\<lparr>books := originalBooks\<rparr>))
             else (Inr (), revalidateBooks fetched st1))"

section \<open>The search box: \<^verbatim>\<open>BookSearch\<close>\<close>

text \<open>
  Modelled from the spec: the hook \<^verbatim>\<open>useDebounce\<close> (\<^verbatim>\<open>lib/hooks/useDebounce\<close>) is not among
  the sources; only its call \<^verbatim>\<open>useDebounce(searchQuery, 300)\<close> is. After the spec it is a
  cancellable delayed task with a single slot for the latest value: every new input
  replaces the pending task and restarts the fixed delay, and the value takes effect when
  the delay has passed without a new input. Here \<open>timeout\<close> is the time at which the pending
  task is due, and the slot is \<open>searchQuery\<close> itself.

  The rest is \<^verbatim>\<open>BookSearch\<close> as written: the effect on \<^verbatim>\<open>[debouncedSearch, onSearch]\<close> calls
  \<^verbatim>\<open>onSearch\<close> when the debounced value has changed, and \<^verbatim>\<open>handleFilterChange\<close> calls
  \<^verbatim>\<open>onFilter\<close> at once. \<^verbatim>\<open>BooksExplorer\<close> passes \<^verbatim>\<open>setQuery\<close> and \<^verbatim>\<open>setFilters\<close> for the two.
  Time is in milliseconds; \<open>onSearchCalls\<close> records the arguments of the calls of
  \<^verbatim>\<open>onSearch\<close>, oldest first.
\<close>

record page =
  searchQuery :: string
  sfilters :: FilterOptions
  debouncedSearch :: string
  timeout :: "nat option"
  explorer :: BooksExplorer
  onSearchCalls :: "string list"

datatype filter_change =
    Genre "string option"
  | PriceRange "(real option \<times> real option) option"
  | Rating "real option"
  | SortBy "string option"
  | SortOrder "string option"

text \<open>
  The events of the search box: \<open>Change v\<close> is the \<^verbatim>\<open>onChange\<close> of the text input,
  \<open>FilterChange c\<close> one call of \<^verbatim>\<open>handleFilterChange\<close> (the genre, price and rating
  controls), and \<open>SortChange by order\<close> the \<^verbatim>\<open>onChange\<close> of the sort select, which calls
  \<^verbatim>\<open>handleFilterChange\<close> twice. The \<^verbatim>\<open>filters\<close> that \<^verbatim>\<open>handleFilterChange\<close> spreads is the
  value of the render that created the handler, its argument \<open>rendered\<close>; both calls of
  the sort select see the same one.
\<close>

datatype event = Change string | FilterChange filter_change | SortChange string string

definition delay :: nat where
  "delay = 300"

fun setKey :: "filter_change \<Rightarrow> FilterOptions \<Rightarrow> FilterOptions" where
  "setKey (Genre v) fs = fs\<lparr>genreF := v\<rparr>"
| "setKey (PriceRange v) fs = fs\<lparr>priceRange := v\<rparr>"
| "setKey (Rating v) fs = fs\<lparr>ratingF := v\<rparr>"
| "setKey (SortBy v) fs = fs\<lparr>sortBy := v\<rparr>"
| "setKey (SortOrder v) fs = fs\<lparr>sortOrder := v\<rparr>"

definition handleFilterChange :: "FilterOptions \<Rightarrow> filter_change \<Rightarrow> page \<Rightarrow> page" where
  "handleFilterChange rendered c st =
     (let newFilters = setKey c rendered
      in st\<lparr>sfilters := newFilters, explorer := (explorer st)\<lparr>filters := newFilters\<rparr>\<rparr>)"

text \<open>
  \<open>fire\<close>: the delayed task runs. The debounced value becomes the value in the slot, and
  when this changes it the effect calls \<^verbatim>\<open>onSearch\<close> with it. \<open>elapse now\<close> lets a task run
  that is due by the time \<open>now\<close>; \<open>handle now ev\<close> is the event \<open>ev\<close> arriving at the time
  \<open>now\<close>, and \<open>run\<close> a sequence of events in the order of their times.
\<close>

definition fire :: "page \<Rightarrow> page" where
  "fire st =
     (let v = searchQuery st
      in if v = debouncedSearch st then st\<lparr>timeout := None\<rparr>
         else st\<lparr>timeout := None, debouncedSearch := v,
                 explorer := (explorer st)\<lparr>query := v\<rparr>,
                 onSearchCalls := onSearchCalls st @ [v]\<rparr>)"

definition elapse :: "nat \<Rightarrow> page \<Rightarrow> page" where
  "elapse now st =
     (case timeout st of
        None \<Rightarrow> st
      | Some due \<Rightarrow> if due \<le> now then fire st else st)"

definition handle :: "nat \<Rightarrow> event \<Rightarrow> page \<Rightarrow> page" where
  "handle now ev st =
     (let st' = elapse now st
      in case ev of
           Change v \<Rightarrow> st'\<lparr>searchQuery := v, timeout := Some (now + delay)\<rparr>
         | FilterChange c \<Rightarrow> handleFilterChange (sfilters st') c st'
         | SortChange by order \<Rightarrow>
             handleFilterChange (sfilters st') (SortOrder (Some order))
               (handleFilterChange (sfilters st') (SortBy (Some by)) st'))"

fun run :: "(nat \<times> event) list \<Rightarrow> page \<Rightarrow> page" where
  "run [] st = st"
| "run ((now, ev) # evs) st = run evs (handle now ev st)"

section \<open>Notions used to state the properties\<close>

text \<open>\<open>precedes a b xs\<close>: some occurrence of \<open>a\<close> in \<open>xs\<close> has an occurrence of \<open>b\<close> after it.\<close>

fun precedes :: "'a \<Rightarrow> 'a \<Rightarrow> 'a list \<Rightarrow> bool" where
  "precedes a b [] = False"
| "precedes a b (x # xs) = ((x = a \<and> b \<in> set xs) \<or> precedes a b xs)"

text \<open>\<open>occursIn t s\<close>: the string \<open>s\<close> contains \<open>t\<close> as a substring.\<close>

definition occursIn :: "string \<Rightarrow> string \<Rightarrow> bool" where
  "occursIn t s = (\<exists>pre post. s = pre @ t @ post)"

text \<open>
  A comparator is consistent on a set when "not greater" is transitive and total there;
  ECMAScript determines the result of a sort for such comparators.
\<close>

definition consistentOn :: "('a \<Rightarrow> 'a \<Rightarrow> number) \<Rightarrow> 'a set \<Rightarrow> bool" where
  "consistentOn cmp A =
     ((\<forall>x \<in> A. \<forall>y \<in> A. \<forall>z \<in> A.
         sortCompare (cmp x y) \<le> 0 \<longrightarrow> sortCompare (cmp y z) \<le> 0 \<longrightarrow> sortCompare (cmp x z) \<le> 0) \<and>
      (\<forall>x \<in> A. \<forall>y \<in> A. sortCompare (cmp x y) \<le> 0 \<or> sortCompare (cmp y x) \<le> 0))"

text \<open>Title-ascending order under a given \<^verbatim>\<open>localeCompare\<close>.\<close>

definition titleAscending :: "(string \<Rightarrow> string \<Rightarrow> int) \<Rightarrow> IBook list \<Rightarrow> bool" where
  "titleAscending localeCompare xs =
     sorted_wrt (\<lambda>a b. localeCompare (orElse (title a) []) (orElse (title b) []) \<le> 0) xs"

text \<open>The price bounds as the spec words them: each bound binds only when present.\<close>

definition withinRange :: "real option \<Rightarrow> real option \<Rightarrow> IBook \<Rightarrow> bool" where
  "withinRange minP maxP b =
     ((case minP of None \<Rightarrow> True | Some lo \<Rightarrow> lo \<le> orElse (price b) 0) \<and>
      (case maxP of None \<Rightarrow> True | Some hi \<Rightarrow> orElse (price b) 0 \<le> hi))"

text \<open>Successive inputs, each within the delay after the one before; \<open>t\<close> is the time of the
  input before the first of the list.\<close>

fun rapid :: "nat \<Rightarrow> (nat \<times> string) list \<Rightarrow> bool" where
  "rapid t [] = True"
| "rapid t ((t', v) # ins) = (t \<le> t' \<and> t' < t + delay \<and> rapid t' ins)"

text \<open>The events of typing the given values at the given times.\<close>

definition typing :: "(nat \<times> string) list \<Rightarrow> (nat \<times> event) list" where
  "typing ins = map (\<lambda>(t, v). (t, Change v)) ins"

section \<open>Sample data\<close>

text \<open>
  Instances of the two platform functions for concrete evaluation. \<open>codeUnitCompare\<close>
  compares strings character by character by code; on words of upper-case ASCII letters
  every locale's collation gives the same sign. \<open>parseSample\<close> has the values of
  \<^verbatim>\<open>Date.parse\<close> on two date-only ISO strings (midnight UTC, in milliseconds since
  1970-01-01) and \<open>NaN\<close> on every other string; it is used only on those two and on a string
  that is no date.
\<close>

fun codeUnitCompare :: "string \<Rightarrow> string \<Rightarrow> int" where
  "codeUnitCompare [] [] = 0"
| "codeUnitCompare [] (d # t) = - 1"
| "codeUnitCompare (c # s) [] = 1"
| "codeUnitCompare (c # s) (d # t) =
     (if (of_char c :: nat) < of_char d then - 1
      else if (of_char d :: nat) < of_char c then 1
      else codeUnitCompare s t)"

definition parseSample :: "string \<Rightarrow> number" where
  "parseSample s =
     (if s = ''2020-01-01'' then Num 1577836800000
      else if s = ''1960-01-01'' then Num (- 315619200000)
      else NaN)"

definition sampleBook :: "int \<Rightarrow> string \<Rightarrow> real \<Rightarrow> string option \<Rightarrow> IBook" where
  "sampleBook i t p d =
     \<lparr>book_id = i, title = Some t, author = Some ''Ann Author'', price = Some p,
      description = Some [], rating = None, reviewCount = None, pages = None,
      genre = None, isbn = None, publishedDate = d, publisher = None, coverImage = None\<rparr>"

definition undated :: IBook where
  "undated = sampleBook 1 ''Undated'' 10 None"

definition dated1960 :: IBook where
  "dated1960 = sampleBook 2 ''Old'' 5 (Some ''1960-01-01'')"

definition dated2020 :: IBook where
  "dated2020 = sampleBook 3 ''New'' 10 (Some ''2020-01-01'')"

definition misdated :: IBook where
  "misdated = sampleBook 4 ''Bad'' 10 (Some ''soon'')"

definition dateAsc :: FilterOptions where
  "dateAsc = noFilters\<lparr>sortBy := Some ''date'', sortOrder := Some ''asc''\<rparr>"

definition dateDesc :: FilterOptions where
  "dateDesc = noFilters\<lparr>sortBy := Some ''date'', sortOrder := Some ''desc''\<rparr>"

definition priceAsc :: FilterOptions where
  "priceAsc = noFilters\<lparr>sortBy := Some ''price'', sortOrder := Some ''asc''\<rparr>"

definition idle :: "IBook list \<Rightarrow> BooksExplorer" where
  "idle bs = \<lparr>query = [], filters = noFilters, books = bs, isRefreshing = False\<rparr>"

definition mounted :: page where
  "mounted = \<lparr>searchQuery = [], sfilters = noFilters, debouncedSearch = [], timeout = None,
              explorer = idle [], onSearchCalls = [[]]\<rparr>"

definition browsing :: "IBook list \<Rightarrow> page" where
  "browsing bs = mounted\<lparr>explorer := idle bs\<rparr>"

section \<open>Facts about the string and array primitives\<close>

text \<open>
  \<open>String_includes\<close> decides substring containment.
\<close>

lemma String_includes_iff: "String_includes s t \<longleftrightarrow> occursIn t s"
  unfolding occursIn_def
proof (induction s)
  case Nil
  then show ?case by simp
next
  case (Cons c s)
  show ?case
  proof
    assume "String_includes (c # s) t"
    then consider "prefix t (c # s)" | "String_includes s t" by auto
    then show "\<exists>pre post. c # s = pre @ t @ post"
    proof cases
      case 1
      then obtain post where "c # s = t @ post" by (auto simp: prefix_def)
      then have "c # s = [] @ t @ post" by simp
      then show ?thesis by blast
    next
      case 2
      with Cons.IH obtain pre post where "s = pre @ t @ post" by blast
      then have "c # s = (c # pre) @ t @ post" by simp
      then show ?thesis by blast
    qed
  next
    assume "\<exists>pre post. c # s = pre @ t @ post"
    then obtain pre post where eq: "c # s = pre @ t @ post" by blast
    show "String_includes (c # s) t"
    proof (cases pre)
      case Nil
      with eq have "prefix t (c # s)" by (simp add: prefix_def)
      then show ?thesis by simp
    next
      case (Cons d pre')
      with eq have "s = pre' @ t @ post" by simp
      with Cons.IH have "String_includes s t" by blast
      then show ?thesis by simp
    qed
  qed
qed

text \<open>
  The sort returns the elements it was given, and insertion never moves an element past a
  later one that it does not compare greater than.
\<close>

lemma set_insertSorted: "set (insertSorted cmp x ys) = insert x (set ys)"
  by (induction ys) auto

lemma set_Array_sort: "set (Array_sort cmp xs) = set xs"
  by (induction xs) (simp_all add: Array_sort_def set_insertSorted)

lemma Array_sort_Cons: "Array_sort cmp (x # xs) = insertSorted cmp x (Array_sort cmp xs)"
  by (simp add: Array_sort_def)






lemma precedes_iff: "precedes a b xs \<longleftrightarrow> (\<exists>us vs ws. xs = us @ a # vs @ b # ws)"
proof (induction xs)
  case Nil
  then show ?case by simp
next
  case (Cons x xs)
  show ?case
  proof
    assume "precedes a b (x # xs)"
    then consider "x = a" "b \<in> set xs" | "precedes a b xs" by auto
    then show "\<exists>us vs ws. x # xs = us @ a # vs @ b # ws"
    proof cases
      case 1
      then obtain vs ws where "xs = vs @ b # ws" by (auto simp: in_set_conv_decomp)
      with 1 have "x # xs = [] @ a # vs @ b # ws" by simp
      then show ?thesis by blast
    next
      case 2
      with Cons.IH obtain us vs ws where "xs = us @ a # vs @ b # ws" by blast
      then have "x # xs = (x # us) @ a # vs @ b # ws" by simp
      then show ?thesis by blast
    qed
  next
    assume "\<exists>us vs ws. x # xs = us @ a # vs @ b # ws"
    then obtain us vs ws where eq: "x # xs = us @ a # vs @ b # ws" by blast
    show "precedes a b (x # xs)"
    proof (cases us)
      case Nil
      with eq show ?thesis by auto
    next
      case (Cons u us')
      with eq have "xs = us' @ a # vs @ b # ws" by simp
      with Cons.IH have "precedes a b xs" by blast
      then show ?thesis by simp
    qed
  qed
qed

text \<open>
  When the comparator agrees with the order of a real-valued key on the elements of the
  array, the result is sorted by that key.
\<close>

lemma sorted_insertSorted:
  fixes k :: "'a \<Rightarrow> real"
  assumes "\<forall>y \<in> set ys. (sortCompare (cmp x y) \<le> 0) = (k x \<le> k y)" and "sorted (map k ys)"
  shows "sorted (map k (insertSorted cmp x ys))"
  using assms
proof (induction ys)
  case Nil
  then show ?case by simp
next
  case (Cons y ys)
  show ?case
  proof (cases "sortCompare (cmp x y) \<le> 0")
    case True
    with Cons.prems have "k x \<le> k y" by simp
    with Cons.prems(2) True show ?thesis by fastforce
  next
    case False
    with Cons.prems have "k y \<le> k x" by simp
    with Cons False show ?thesis by (auto simp: set_insertSorted)
  qed
qed

lemma sorted_Array_sort:
  fixes k :: "'a \<Rightarrow> real"
  assumes "\<forall>x \<in> set xs. \<forall>y \<in> set xs. (sortCompare (cmp x y) \<le> 0) = (k x \<le> k y)"
  shows "sorted (map k (Array_sort cmp xs))"
  using assms
proof (induction xs)
  case Nil
  then show ?case by (simp add: Array_sort_def)
next
  case (Cons x xs)
  then have "sorted (map k (Array_sort cmp xs))" by simp
  moreover have "\<forall>y \<in> set (Array_sort cmp xs). (sortCompare (cmp x y) \<le> 0) = (k x \<le> k y)"
    using Cons.prems by (simp add: set_Array_sort)
  ultimately show ?case by (simp add: Array_sort_Cons sorted_insertSorted)
qed

text \<open>For a comparator that is consistent on the elements, the result is sorted by it.\<close>

lemma consistentOn_subset: "consistentOn cmp A \<Longrightarrow> B \<subseteq> A \<Longrightarrow> consistentOn cmp B"
  unfolding consistentOn_def by blast

lemma sorted_wrt_insertSorted:
  assumes "consistentOn cmp (insert x (set ys))"
    and "sorted_wrt (\<lambda>a b. sortCompare (cmp a b) \<le> 0) ys"
  shows "sorted_wrt (\<lambda>a b. sortCompare (cmp a b) \<le> 0) (insertSorted cmp x ys)"
  using assms
proof (induction ys)
  case Nil
  then show ?case by simp
next
  case (Cons y ys)
  let ?le = "\<lambda>a b. sortCompare (cmp a b) \<le> 0"
  from Cons.prems(1) have sub: "consistentOn cmp (insert x (set ys))"
    by (rule consistentOn_subset) auto
  from Cons.prems(1)
  have tr: "\<And>a b c. a \<in> insert x (set (y # ys)) \<Longrightarrow> b \<in> insert x (set (y # ys)) \<Longrightarrow>
      c \<in> insert x (set (y # ys)) \<Longrightarrow> ?le a b \<Longrightarrow> ?le b c \<Longrightarrow> ?le a c"
    unfolding consistentOn_def by blast
  from Cons.prems(1)
  have tot: "\<And>a b. a \<in> insert x (set (y # ys)) \<Longrightarrow> b \<in> insert x (set (y # ys)) \<Longrightarrow> ?le a b \<or> ?le b a"
    unfolding consistentOn_def by blast
  show ?case
  proof (cases "?le x y")
    case True
    have "\<forall>z \<in> set ys. ?le x z"
    proof
      fix z assume z: "z \<in> set ys"
      with Cons.prems(2) have "?le y z" by simp
      with True z show "?le x z" by (intro tr [of x y z]) simp_all
    qed
    with True Cons.prems(2) show ?thesis by simp
  next
    case False
    then have yx: "?le y x" using tot [of x y] by simp
    have "sorted_wrt ?le (insertSorted cmp x ys)"
      using Cons.IH [OF sub] Cons.prems(2) by simp
    moreover have "\<forall>z \<in> set (insertSorted cmp x ys). ?le y z"
      using yx Cons.prems(2) by (simp add: set_insertSorted)
    ultimately show ?thesis using False by simp
  qed
qed

lemma sorted_wrt_Array_sort:
  assumes "consistentOn cmp (set xs)"
  shows "sorted_wrt (\<lambda>a b. sortCompare (cmp a b) \<le> 0) (Array_sort cmp xs)"
  using assms
proof (induction xs)
  case Nil
  then show ?case by (simp add: Array_sort_def)
next
  case (Cons x xs)
  have "consistentOn cmp (set xs)"
    using Cons.prems by (rule consistentOn_subset) auto
  then have "sorted_wrt (\<lambda>a b. sortCompare (cmp a b) \<le> 0) (Array_sort cmp xs)"
    by (rule Cons.IH)
  moreover have "consistentOn cmp (insert x (set (Array_sort cmp xs)))"
    using Cons.prems by (simp add: set_Array_sort)
  ultimately show ?case
    by (simp add: Array_sort_Cons sorted_wrt_insertSorted)
qed

section \<open>Every stage returns records of its input\<close>

lemma set_textStage: "set (textStage nq bs) \<subseteq> set bs"
  by (auto simp: textStage_def)

lemma set_genreStage: "set (genreStage fs bs) \<subseteq> set bs"
  by (auto simp: genreStage_def)

lemma set_priceStage: "set (priceStage fs bs) \<subseteq> set bs"
  by (auto simp: priceStage_def split: option.splits)

lemma set_ratingStage: "set (ratingStage fs bs) \<subseteq> set bs"
  by (auto simp: ratingStage_def)

lemma set_beforeSort:
  "set (ratingStage fs (priceStage fs (genreStage fs (textStage nq bs)))) \<subseteq> set bs"
  using set_ratingStage set_priceStage set_genreStage set_textStage by (meson subset_trans)

lemma set_sortStage: "set (sortStage lc parse fs xs) = set xs"
  by (simp add: sortStage_def set_Array_sort)

lemma set_filteredBooks: "set (filteredBooks lc parse bs q fs) \<subseteq> set bs"
  using set_beforeSort by (simp add: filteredBooks_def set_sortStage)

section \<open>The query engine\<close>

subsection \<open>Empty query specification\<close>

text \<open>
  C2, as amended. The sort stage runs only when \<^verbatim>\<open>filters.sortBy\<close> is truthy. With an empty
  term and no filter option set, every stage is skipped and the engine returns the
  collection itself: all its records, in their original order. No ordering by title is
  applied; the comparison of titles is the branch taken once \<^verbatim>\<open>sortBy\<close> is set to
  \<^verbatim>\<open>'title'\<close> or to a value the \<^verbatim>\<open>switch\<close> does not name.
\<close>

theorem empty_spec_keeps_collection_order:
  "filteredBooks lc parse bs [] noFilters = bs"
  by (simp add: filteredBooks_def sortStage_def ratingStage_def priceStage_def genreStage_def textStage_def
      normalizedQuery_def toLowerCase_def trim_def noFilters_def truthyS_def truthyN_def)

text \<open>
  C2 as stated fails: for the collection of a book titled \<open>B\<close> followed by a book titled
  \<open>A\<close>, the empty specification returns \<open>B\<close> before \<open>A\<close>, which is not ascending by title.
\<close>

theorem empty_spec_not_title_sorted_counterexample:
  "filteredBooks codeUnitCompare parseSample [sampleBook 1 ''B'' 10 None, sampleBook 2 ''A'' 10 None] [] noFilters =
     [sampleBook 1 ''B'' 10 None, sampleBook 2 ''A'' 10 None] \<and>
   \<not> titleAscending codeUnitCompare
      (filteredBooks codeUnitCompare parseSample [sampleBook 1 ''B'' 10 None, sampleBook 2 ''A'' 10 None] [] noFilters)"
  by (simp add: filteredBooks_def sortStage_def ratingStage_def priceStage_def genreStage_def textStage_def
      normalizedQuery_def toLowerCase_def trim_def noFilters_def truthyS_def truthyN_def titleAscending_def
      sampleBook_def orElse_def)

text \<open>
  With \<^verbatim>\<open>sortBy\<close> set to \<^verbatim>\<open>'title'\<close>, an order other than \<^verbatim>\<open>desc\<close> and a comparator that is
  consistent on the records, the sort stage does return them ascending by title.
\<close>

lemma compareBooks_title:
  assumes "sortBy fs = Some ''title''" and "sortOrder fs \<noteq> Some ''desc''"
  shows "sortCompare (compareBooks lc parse fs a b) = of_int (lc (orElse (title a) []) (orElse (title b) []))"
  using assms by (simp add: compareBooks_def sortCompare_def)

lemma title_sort_ascending:
  assumes "sortBy fs = Some ''title''" and "sortOrder fs \<noteq> Some ''desc''"
    and "consistentOn (compareBooks lc parse fs) (set xs)"
  shows "titleAscending lc (sortStage lc parse fs xs)"
proof -
  have "truthyS (sortBy fs)" using assms(1) by (simp add: truthyS_def)
  moreover have "sorted_wrt (\<lambda>a b. sortCompare (compareBooks lc parse fs a b) \<le> 0)
      (Array_sort (compareBooks lc parse fs) xs)"
    using assms(3) by (rule sorted_wrt_Array_sort)
  ultimately show ?thesis
    by (simp add: sortStage_def titleAscending_def compareBooks_title [OF assms(1,2)])
qed

subsection \<open>Text filter\<close>

lemma textStage_occursIn:
  "nq \<noteq> [] \<Longrightarrow>
   textStage nq bs =
     filter (\<lambda>b. occursIn nq
               (toLowerCase (orElse (title b) [] @ '' '' @ orElse (author b) [] @ '' '' @ orElse (isbn b) [])))
       bs"
  by (simp add: textStage_def haystack_def String_includes_iff)

text \<open>
  C7. When the term is non-empty after trimming and lower-casing, the text stage keeps, in
  their original order, exactly the records whose lower-cased \<open>title + " " + author + " " + isbn\<close>
  (a missing field read as the empty string) contains the normalised term as a substring.
  For the titles \<open>Alpha\<close>, \<open>Beta\<close>, \<open>alphabet\<close> the term \<open>alph\<close> keeps \<open>Alpha\<close> and \<open>alphabet\<close>.
\<close>

theorem text_filter_substring:
  "(normalizedQuery q \<noteq> [] \<longrightarrow>
      textStage (normalizedQuery q) bs =
        filter (\<lambda>b. occursIn (normalizedQuery q)
                  (toLowerCase (orElse (title b) [] @ '' '' @ orElse (author b) [] @ '' '' @ orElse (isbn b) [])))
          bs) \<and>
   map title (textStage (normalizedQuery ''alph'')
        [sampleBook 1 ''Alpha'' 10 None, sampleBook 2 ''Beta'' 10 None, sampleBook 3 ''alphabet'' 10 None]) =
     [Some ''Alpha'', Some ''alphabet'']"
proof
  show "normalizedQuery q \<noteq> [] \<longrightarrow>
      textStage (normalizedQuery q) bs =
        filter (\<lambda>b. occursIn (normalizedQuery q)
                  (toLowerCase (orElse (title b) [] @ '' '' @ orElse (author b) [] @ '' '' @ orElse (isbn b) [])))
          bs"
    using textStage_occursIn by blast
  show "map title (textStage (normalizedQuery ''alph'')
        [sampleBook 1 ''Alpha'' 10 None, sampleBook 2 ''Beta'' 10 None, sampleBook 3 ''alphabet'' 10 None]) =
     [Some ''Alpha'', Some ''alphabet'']"
    by (simp add: textStage_def haystack_def sampleBook_def 
      normalizedQuery_def toLowerCase_def trim_def isWhiteSpace_def orElse_def)
qed

theorem text_filter_substring_witness:
  "normalizedQuery ''  ALph '' = ''alph'' \<and> normalizedQuery ''  ALph '' \<noteq> [] \<and>
   textStage (normalizedQuery ''  ALph '')
        [sampleBook 1 ''Alpha'' 10 None, sampleBook 2 ''Beta'' 10 None, sampleBook 3 ''alphabet'' 10 None] =
     [sampleBook 1 ''Alpha'' 10 None, sampleBook 3 ''alphabet'' 10 None]"
  using text_filter_substring [of "''  ALph ''"
      "[sampleBook 1 ''Alpha'' 10 None, sampleBook 2 ''Beta'' 10 None, sampleBook 3 ''alphabet'' 10 None]"]
  by (simp add: String_includes_iff [symmetric] sampleBook_def 
      normalizedQuery_def toLowerCase_def trim_def isWhiteSpace_def orElse_def)

subsection \<open>Price filter\<close>

lemma priceStage_active:
  "priceRange fs = Some (minP, maxP) \<Longrightarrow> truthyN minP \<or> truthyN maxP \<Longrightarrow>
   priceStage fs result = filter (withinRange minP maxP) result"
  by (rule trans [OF _ filter_cong [OF refl]])
     (auto simp: priceStage_def withinRange_def Let_def split: option.splits)

lemma priceStage_inactive:
  "priceRange fs = Some (minP, maxP) \<Longrightarrow> \<not> truthyN minP \<Longrightarrow> \<not> truthyN maxP \<Longrightarrow>
   priceStage fs result = result"
  by (simp add: priceStage_def)

text \<open>
  C6. With a price range \<open>[min, max]\<close>, a record whose price is at least \<open>min\<close> and at most
  \<open>max\<close> (each bound binding only when present) passes the price stage, the bounds
  included; and when the stage is active it keeps exactly those records. A record priced 0
  passes the range \<open>[0, 10]\<close>.
\<close>

theorem price_filter_inclusive:
  assumes "priceRange fs = Some (minP, maxP)"
  shows "(b \<in> set result \<and> withinRange minP maxP b \<longrightarrow> b \<in> set (priceStage fs result)) \<and>
         (truthyN minP \<or> truthyN maxP \<longrightarrow> priceStage fs result = filter (withinRange minP maxP) result)"
proof (cases "truthyN minP \<or> truthyN maxP")
  case True
  with assms show ?thesis by (simp add: priceStage_active)
next
  case False
  with assms show ?thesis by (simp add: priceStage_inactive)
qed

theorem price_filter_inclusive_witness:
  "priceRange (noFilters\<lparr>priceRange := Some (Some 0, Some 10)\<rparr>) = Some (Some 0, Some 10) \<and>
   sampleBook 1 ''Free'' 0 None \<in> set [sampleBook 1 ''Free'' 0 None, sampleBook 2 ''Dear'' 11 None] \<and>
   withinRange (Some 0) (Some 10) (sampleBook 1 ''Free'' 0 None) \<and>
   truthyN (Some 10) \<and>
   priceStage (noFilters\<lparr>priceRange := Some (Some 0, Some 10)\<rparr>)
     [sampleBook 1 ''Free'' 0 None, sampleBook 2 ''Dear'' 11 None, sampleBook 3 ''Ten'' 10 None] =
     [sampleBook 1 ''Free'' 0 None, sampleBook 3 ''Ten'' 10 None]"
  using price_filter_inclusive [of "noFilters\<lparr>priceRange := Some (Some 0, Some 10)\<rparr>" "Some 0" "Some 10"
     "sampleBook 1 ''Free'' 0 None" "[sampleBook 1 ''Free'' 0 None, sampleBook 2 ''Dear'' 11 None, sampleBook 3 ''Ten'' 10 None]"]
  by (simp add: noFilters_def withinRange_def truthyN_def sampleBook_def orElse_def)

subsection \<open>Rating filter\<close>

lemma compareBooks_rating_irrelevant:
  "compareBooks lc parse (fs\<lparr>ratingF := r\<rparr>) = compareBooks lc parse fs"
  by (intro ext) (simp add: compareBooks_def)

lemma sortStage_rating_irrelevant:
  "sortStage lc parse (fs\<lparr>ratingF := r\<rparr>) = sortStage lc parse fs"
  by (intro ext) (simp add: sortStage_def compareBooks_rating_irrelevant)

lemma genreStage_rating_irrelevant:
  "genreStage (fs\<lparr>ratingF := r\<rparr>) = genreStage fs"
  by (intro ext) (simp add: genreStage_def)

lemma priceStage_rating_irrelevant:
  "priceStage (fs\<lparr>ratingF := r\<rparr>) = priceStage fs"
  by (intro ext) (simp add: priceStage_def)


text \<open>
  C10. A rating threshold of exactly 0 is falsy, so the rating stage is skipped: it returns
  its input unchanged, records without a rating included, and the whole engine gives the
  same view as with no rating threshold at all.
\<close>

theorem rating_zero_is_no_filter:
  "ratingStage (fs\<lparr>ratingF := Some 0\<rparr>) result = result \<and>
   filteredBooks lc parse bs q (fs\<lparr>ratingF := Some 0\<rparr>) =
   filteredBooks lc parse bs q (fs\<lparr>ratingF := None\<rparr>)"
  by (simp add: filteredBooks_def ratingStage_def truthyN_def sortStage_rating_irrelevant
      priceStage_rating_irrelevant genreStage_rating_irrelevant)


subsection \<open>Sorting by date\<close>

lemma compareBooks_date:
  assumes "sortBy fs = Some ''date''" and "dateStamp parse a = Num x" and "dateStamp parse b = Num y"
  shows "compareBooks lc parse fs a b = Num ((x - y) * (if sortOrder fs = Some ''desc'' then - 1 else 1))"
  using assms by (simp add: compareBooks_def)

lemma compareBooks_date_le:
  assumes "sortBy fs = Some ''date''" and "dateStamp parse a \<noteq> NaN" and "dateStamp parse b \<noteq> NaN"
  shows "(sortCompare (compareBooks lc parse fs a b) \<le> 0) =
         (if sortOrder fs = Some ''desc''
          then sortCompare (dateStamp parse b) \<le> sortCompare (dateStamp parse a)
          else sortCompare (dateStamp parse a) \<le> sortCompare (dateStamp parse b))"
proof -
  from assms(2) obtain x where x: "dateStamp parse a = Num x" by (cases "dateStamp parse a") auto
  from assms(3) obtain y where y: "dateStamp parse b = Num y" by (cases "dateStamp parse b") auto
  show ?thesis
    by (simp add: compareBooks_date [OF assms(1) x y] x y sortCompare_def)
qed

lemma sorted_by_date:
  assumes "sortBy fs = Some ''date''" and "\<forall>b \<in> set xs. dateStamp parse b \<noteq> NaN"
  shows "sorted (map (\<lambda>b. (if sortOrder fs = Some ''desc'' then - 1 else 1) * sortCompare (dateStamp parse b))
           (sortStage lc parse fs xs))"
proof -
  have "truthyS (sortBy fs)" using assms(1) by (simp add: truthyS_def)
  moreover have "sorted (map (\<lambda>b. (if sortOrder fs = Some ''desc'' then - 1 else 1) * sortCompare (dateStamp parse b))
           (Array_sort (compareBooks lc parse fs) xs))"
    by (rule sorted_Array_sort) (use assms in \<open>simp add: compareBooks_date_le\<close>)
  ultimately show ?thesis by (simp add: sortStage_def)
qed

text \<open>
  C3, as amended. When sorting by date, a record whose \<^verbatim>\<open>publishedDate\<close> is missing (absent
  or empty) has time stamp 0. Provided every date present in the collection parses, such a
  record stands before every record with a positive time stamp (a date after the start of
  1970) when the order is ascending, and after every such record when the order is
  \<^verbatim>\<open>desc\<close>. Positions are indices into the view.
\<close>

theorem missing_date_sorts_before_later_dates:
  assumes "sortBy fs = Some ''date''"
    and "\<forall>b \<in> set bs. dateStamp parse b \<noteq> NaN"
    and "i < length (filteredBooks lc parse bs q fs)"
    and "j < length (filteredBooks lc parse bs q fs)"
    and "\<not> truthyS (publishedDate (filteredBooks lc parse bs q fs ! i))"
    and "dateStamp parse (filteredBooks lc parse bs q fs ! j) = Num t" and "0 < t"
  shows "dateStamp parse (filteredBooks lc parse bs q fs ! i) = Num 0 \<and>
         (if sortOrder fs = Some ''desc'' then j < i else i < j)"
proof -
  let ?view = "filteredBooks lc parse bs q fs"
  let ?k = "\<lambda>b. (if sortOrder fs = Some ''desc'' then - 1 else 1) * sortCompare (dateStamp parse b)"
  let ?pre = "ratingStage fs (priceStage fs (genreStage fs (textStage (normalizedQuery q) bs)))"
  have zero: "dateStamp parse (?view ! i) = Num 0"
    using assms(5) by (simp add: dateStamp_def)
  have "\<forall>b \<in> set ?pre. dateStamp parse b \<noteq> NaN"
    using assms(2) set_beforeSort by blast
  then have srt: "sorted (map ?k ?view)"
    unfolding filteredBooks_def by (rule sorted_by_date [OF assms(1)])
  have mono: "\<And>m n. m \<le> n \<Longrightarrow> n < length ?view \<Longrightarrow> ?k (?view ! m) \<le> ?k (?view ! n)"
    using srt by (simp add: sorted_iff_nth_mono)
  have ki: "?k (?view ! i) = 0" using zero by (simp add: sortCompare_def)
  have kj: "?k (?view ! j) = (if sortOrder fs = Some ''desc'' then - t else t)"
    using assms(6) by (simp add: sortCompare_def)
  have order: "if sortOrder fs = Some ''desc'' then j < i else i < j"
  proof (cases "sortOrder fs = Some ''desc''")
    case True
    have "j < i"
    proof (rule ccontr)
      assume "\<not> j < i"
      then have "i \<le> j" by simp
      from mono [OF this assms(4)] ki kj True assms(7) show False by simp
    qed
    with True show ?thesis by simp
  next
    case False
    have "i < j"
    proof (rule ccontr)
      assume "\<not> i < j"
      then have "j \<le> i" by simp
      from mono [OF this assms(3)] ki kj False assms(7) show False by simp
    qed
    with False show ?thesis by simp
  qed
  from zero order show ?thesis by simp
qed

theorem missing_date_sorts_before_later_dates_witness:
  "sortBy dateAsc = Some ''date'' \<and> sortBy dateDesc = Some ''date'' \<and>
   dateStamp parseSample dated2020 \<noteq> NaN \<and> dateStamp parseSample undated \<noteq> NaN \<and>
   filteredBooks codeUnitCompare parseSample [dated2020, undated] [] dateAsc = [undated, dated2020] \<and>
   filteredBooks codeUnitCompare parseSample [undated, dated2020] [] dateDesc = [dated2020, undated] \<and>
   \<not> truthyS (publishedDate undated) \<and>
   dateStamp parseSample dated2020 = Num 1577836800000 \<and> (0::real) < 1577836800000 \<and>
   dateStamp parseSample undated = Num 0 \<and>
   sortOrder dateAsc \<noteq> Some ''desc'' \<and> (0::nat) < 1 \<and> sortOrder dateDesc = Some ''desc''"
proof -
  have asc: "filteredBooks codeUnitCompare parseSample [dated2020, undated] [] dateAsc = [undated, dated2020]"
    by (simp add: filteredBooks_def sortStage_def ratingStage_def priceStage_def genreStage_def
        textStage_def normalizedQuery_def toLowerCase_def trim_def dateAsc_def noFilters_def truthyS_def
        truthyN_def Array_sort_def compareBooks_def dateStamp_def parseSample_def sortCompare_def
        undated_def dated2020_def sampleBook_def)
  have desc: "filteredBooks codeUnitCompare parseSample [undated, dated2020] [] dateDesc = [dated2020, undated]"
    by (simp add: filteredBooks_def sortStage_def ratingStage_def priceStage_def genreStage_def
        textStage_def normalizedQuery_def toLowerCase_def trim_def dateDesc_def noFilters_def truthyS_def
        truthyN_def Array_sort_def compareBooks_def dateStamp_def parseSample_def sortCompare_def
        undated_def dated2020_def sampleBook_def)
  have sb: "sortBy dateAsc = Some ''date''" "sortBy dateDesc = Some ''date''"
    by (simp_all add: dateAsc_def dateDesc_def)
  have valid: "\<forall>b \<in> set [dated2020, undated]. dateStamp parseSample b \<noteq> NaN"
    "\<forall>b \<in> set [undated, dated2020]. dateStamp parseSample b \<noteq> NaN"
    by (simp_all add: dateStamp_def parseSample_def undated_def dated2020_def sampleBook_def truthyS_def)
  have un: "\<not> truthyS (publishedDate undated)"
    by (simp add: undated_def sampleBook_def truthyS_def)
  have st: "dateStamp parseSample dated2020 = Num 1577836800000"
    by (simp add: dateStamp_def parseSample_def dated2020_def sampleBook_def truthyS_def)
  have pos: "(0::real) < 1577836800000" by simp
  have ord: "sortOrder dateAsc \<noteq> Some ''desc''" "sortOrder dateDesc = Some ''desc''"
    by (simp_all add: dateAsc_def dateDesc_def)
  have a: "dateStamp parseSample undated = Num 0 \<and> (if sortOrder dateAsc = Some ''desc'' then (1::nat) < 0 else (0::nat) < 1)"
    using missing_date_sorts_before_later_dates [of dateAsc "[dated2020, undated]" parseSample 0
        codeUnitCompare "[]" 1 1577836800000, OF sb(1) valid(1)] asc un st pos
    by (simp add: ord)
  have d: "dateStamp parseSample undated = Num 0 \<and> (if sortOrder dateDesc = Some ''desc'' then (0::nat) < 1 else (1::nat) < 0)"
    using missing_date_sorts_before_later_dates [of dateDesc "[undated, dated2020]" parseSample 1
        codeUnitCompare "[]" 0 1577836800000, OF sb(2) valid(2)] desc un st pos
    by (simp add: ord)
  have lt: "(0::nat) < 1" by simp
  from asc desc sb valid(1) un st pos a d ord lt show ?thesis by simp
qed

text \<open>
  C3 as stated fails: a valid date before 1970 has a negative time stamp. The undated
  record is placed after the book dated 1960-01-01 in ascending order and before it in
  descending order.
\<close>

theorem missing_date_after_earlier_date_counterexample:
  "publishedDate undated = None \<and>
   dateStamp parseSample dated1960 = Num (- 315619200000) \<and>
   filteredBooks codeUnitCompare parseSample [undated, dated1960] [] dateAsc = [dated1960, undated] \<and>
   \<not> precedes undated dated1960 (filteredBooks codeUnitCompare parseSample [undated, dated1960] [] dateAsc) \<and>
   filteredBooks codeUnitCompare parseSample [dated1960, undated] [] dateDesc = [undated, dated1960] \<and>
   \<not> precedes dated1960 undated (filteredBooks codeUnitCompare parseSample [dated1960, undated] [] dateDesc)"
  by (simp add: filteredBooks_def sortStage_def ratingStage_def priceStage_def genreStage_def
      textStage_def normalizedQuery_def toLowerCase_def trim_def dateAsc_def dateDesc_def noFilters_def
      truthyS_def truthyN_def Array_sort_def compareBooks_def dateStamp_def parseSample_def
      sortCompare_def undated_def dated1960_def sampleBook_def)

text \<open>
  A non-empty string that is no date is not read as time stamp 0: \<^verbatim>\<open>Date.parse\<close> gives
  \<^verbatim>\<open>NaN\<close>, the comparator gives \<^verbatim>\<open>NaN\<close>, and the record stays where it was, here after a
  record dated 2020 in ascending order.
\<close>

lemma unparsable_date_is_NaN:
  "dateStamp parseSample misdated = NaN \<and>
   filteredBooks codeUnitCompare parseSample [dated2020, misdated] [] dateAsc = [dated2020, misdated]"
  by (simp add: filteredBooks_def sortStage_def ratingStage_def priceStage_def genreStage_def
      textStage_def normalizedQuery_def toLowerCase_def trim_def dateAsc_def noFilters_def
      truthyS_def truthyN_def Array_sort_def compareBooks_def dateStamp_def parseSample_def
      sortCompare_def misdated_def dated2020_def sampleBook_def)

subsection \<open>Stability of the sort stage\<close>

text \<open>
  The comparator of the repository is consistent when it sorts by price or by rating, and
  when it sorts by date and every date that reaches the sort parses. For titles and authors
  it is as consistent as the platform's \<^verbatim>\<open>localeCompare\<close>.
\<close>

lemma consistentOn_key:
  fixes k :: "'a \<Rightarrow> real"
  assumes "\<forall>x \<in> A. \<forall>y \<in> A. (sortCompare (cmp x y) \<le> 0) = (k x \<le> k y)"
  shows "consistentOn cmp A"
  unfolding consistentOn_def
proof (intro conjI ballI impI)
  fix x y z
  assume "x \<in> A" "y \<in> A" "z \<in> A" "sortCompare (cmp x y) \<le> 0" "sortCompare (cmp y z) \<le> 0"
  with assms have "k x \<le> k y" "k y \<le> k z" by simp_all
  then have "k x \<le> k z" by simp
  with assms \<open>x \<in> A\<close> \<open>z \<in> A\<close> show "sortCompare (cmp x z) \<le> 0" by simp
next
  fix x y
  assume "x \<in> A" "y \<in> A"
  have "k x \<le> k y \<or> k y \<le> k x" by linarith
  with assms \<open>x \<in> A\<close> \<open>y \<in> A\<close> show "sortCompare (cmp x y) \<le> 0 \<or> sortCompare (cmp y x) \<le> 0" by simp
qed


lemma compareBooks_rating:
  assumes "sortBy fs = Some ''rating''"
  shows "sortCompare (compareBooks lc parse fs a b) =
         (orElse (rating a) 0 - orElse (rating b) 0) * (if sortOrder fs = Some ''desc'' then - 1 else 1)"
  using assms by (simp add: compareBooks_def sortCompare_def)


lemma consistent_rating:
  assumes "sortBy fs = Some ''rating''"
  shows "consistentOn (compareBooks lc parse fs) A"
  by (rule consistentOn_key [where k = "\<lambda>b. (if sortOrder fs = Some ''desc'' then - 1 else 1) * orElse (rating b) 0"])
     (simp add: compareBooks_rating [OF assms])





section \<open>The controller\<close>

lemma handleDeleteBook_pending_removes:
  "\<forall>b \<in> set (displayed lc parse (handleDeleteBook_pending i st)). book_id b \<noteq> i"
proof
  fix b
  assume "b \<in> set (displayed lc parse (handleDeleteBook_pending i st))"
  then have "b \<in> set (books (handleDeleteBook_pending i st))"
    using set_filteredBooks unfolding displayed_def by blast
  then show "book_id b \<noteq> i" by (simp add: handleDeleteBook_pending_def)
qed

text \<open>
  C1. For the collection \<open>[A, B]\<close> with ids 1 and 2, \<^verbatim>\<open>handleDeleteBook(1)\<close> shows \<open>[B]\<close>
  while the remote call is pending, whatever that call will answer, and \<open>A\<close> is not in the
  displayed view. If the call rejects or answers with a failure result, the promise
  rejects with an error and the state is the original one, with collection \<open>[A, B]\<close>. If it
  succeeds and the reconciliation fetch returns \<open>[B]\<close>, the final collection is \<open>[B]\<close>.
\<close>

theorem optimistic_delete_scenario:
  assumes "book_id A = 1" and "book_id B = 2" and "books st = [A, B]"
  shows "books (handleDeleteBook_pending 1 st) = [B] \<and>
         A \<notin> set (displayed lc parse (handleDeleteBook_pending 1 st)) \<and>
         handleDeleteBook (Rejected e) fetched 1 st = (Inl e, st) \<and>
         (\<exists>err. handleDeleteBook (Resolved (r\<lparr>success := False\<rparr>)) fetched 1 st = (Inl err, st)) \<and>
         handleDeleteBook (Resolved (r\<lparr>success := True\<rparr>))
             (Resolved (Response True (Resolved (Some [B])))) 1 st =
           (Inr (), st\<lparr>books := [B], isRefreshing := False\<rparr>)"
proof -
  have "A \<notin> set (displayed lc parse (handleDeleteBook_pending 1 st))"
    using handleDeleteBook_pending_removes [of lc parse 1 st] assms(1) by blast
  moreover have "books (handleDeleteBook_pending 1 st) = [B]"
    using assms by (simp add: handleDeleteBook_pending_def)
  moreover have "handleDeleteBook (Rejected e) fetched 1 st = (Inl e, st)"
    by (simp add: handleDeleteBook_def handleDeleteBook_pending_def Let_def)
  moreover have "\<exists>err. handleDeleteBook (Resolved (r\<lparr>success := False\<rparr>)) fetched 1 st = (Inl err, st)"
    by (simp add: handleDeleteBook_def handleDeleteBook_pending_def Let_def)
  moreover have "handleDeleteBook (Resolved (r\<lparr>success := True\<rparr>))
             (Resolved (Response True (Resolved (Some [B])))) 1 st =
           (Inr (), st\<lparr>books := [B], isRefreshing := False\<rparr>)"
    by (simp add: handleDeleteBook_def handleDeleteBook_pending_def revalidateBooks_def orElse_def Let_def)
  ultimately show ?thesis by blast
qed

theorem optimistic_delete_scenario_witness:
  "book_id undated = 1 \<and> book_id dated1960 = 2 \<and>
   books (idle [undated, dated1960]) = [undated, dated1960] \<and>
   books (handleDeleteBook_pending 1 (idle [undated, dated1960])) = [dated1960] \<and>
   displayed codeUnitCompare parseSample (handleDeleteBook_pending 1 (idle [undated, dated1960])) = [dated1960] \<and>
   handleDeleteBook (Rejected (Error ''network'')) (Rejected (Error ''unused'')) 1 (idle [undated, dated1960]) =
     (Inl (Error ''network''), idle [undated, dated1960]) \<and>
   handleDeleteBook (Resolved (deleteBookAction (\<lambda>i. Rejected (Error ''store'')) 1))
       (Rejected (Error ''unused'')) 1 (idle [undated, dated1960]) =
     (Inl (Error ''Failed to delete book''), idle [undated, dated1960]) \<and>
   handleDeleteBook (Resolved (deleteBookAction (\<lambda>i. Resolved ()) 1))
       (Resolved (Response True (Resolved (Some [dated1960])))) 1 (idle [undated, dated1960]) =
     (Inr (), idle [dated1960])"
  using optimistic_delete_scenario [of undated dated1960 "idle [undated, dated1960]"
      codeUnitCompare parseSample "Error ''network''" "Rejected (Error ''unused'')"
      "deleteBookAction (\<lambda>i. Rejected (Error ''store'')) 1"]
  by (simp add: undated_def dated1960_def sampleBook_def idle_def deleteBookAction_def
      handleDeleteBook_def handleDeleteBook_pending_def revalidateBooks_def truthyS_def truthyN_def
      orElse_def Let_def displayed_def filteredBooks_def sortStage_def ratingStage_def priceStage_def
      genreStage_def textStage_def normalizedQuery_def toLowerCase_def trim_def noFilters_def)

text \<open>
  C4. When the remote delete fails, the state after \<^verbatim>\<open>handleDeleteBook\<close> is the state
  before it, and the promise rejects with the failure reason: the error thrown by the call
  itself, or an \<^verbatim>\<open>Error\<close> whose message is the non-empty reason string of the failure
  result. For \<^verbatim>\<open>deleteBookAction\<close> that reason is always \<open>Failed to delete book\<close>, the string
  the action produces when the data layer rejects.
\<close>

theorem delete_failure_rolls_back_with_reason:
  "handleDeleteBook (Rejected e) fetched i st = (Inl e, st) \<and>
   (reason \<noteq> [] \<longrightarrow>
      handleDeleteBook (Resolved \<lparr>success = False, error = Some reason\<rparr>) fetched i st =
        (Inl (Error reason), st)) \<and>
   (deleteBook i = Rejected e' \<longrightarrow>
      deleteBookAction deleteBook i = \<lparr>success = False, error = Some ''Failed to delete book''\<rparr> \<and>
      handleDeleteBook (Resolved (deleteBookAction deleteBook i)) fetched i st =
        (Inl (Error ''Failed to delete book''), st))"
  by (simp add: handleDeleteBook_def handleDeleteBook_pending_def deleteBookAction_def truthyS_def Let_def)

theorem delete_failure_rolls_back_with_reason_witness:
  "''quota exceeded'' \<noteq> [] \<and>
   handleDeleteBook (Resolved \<lparr>success = False, error = Some ''quota exceeded''\<rparr>) (Rejected (Error ''unused''))
       1 (idle [undated, dated1960]) =
     (Inl (Error ''quota exceeded''), idle [undated, dated1960]) \<and>
   handleDeleteBook (Resolved (deleteBookAction (\<lambda>i. Rejected (Error ''store down'')) 1))
       (Rejected (Error ''unused'')) 1 (idle [undated, dated1960]) =
     (Inl (Error ''Failed to delete book''), idle [undated, dated1960])"
proof -
  have ne: "''quota exceeded'' \<noteq> []" by simp
  have rej: "(\<lambda>i::int. (Rejected (Error ''store down'') :: unit awaited)) 1 = Rejected (Error ''store down'')"
    by simp
  from ne rej
    delete_failure_rolls_back_with_reason [of "Error ''store down''" "Rejected (Error ''unused'')" 1
      "idle [undated, dated1960]" "''quota exceeded''" "\<lambda>i. Rejected (Error ''store down'')" "Error ''store down''"]
  show ?thesis by blast
qed

text \<open>
  C5. When the remote delete succeeds and the reconciliation fetch rejects or answers with
  a response that is not \<^verbatim>\<open>ok\<close>, the collection keeps the value of the optimistic removal,
  \<open>isRefreshing\<close> is \<open>False\<close>, and the promise resolves.
\<close>

theorem reconciliation_failure_is_swallowed:
  assumes "success r"
  shows "handleDeleteBook (Resolved r) (Rejected e) i st =
           (Inr (), st\<lparr>books := filter (\<lambda>book. book_id book \<noteq> i) (books st), isRefreshing := False\<rparr>) \<and>
         handleDeleteBook (Resolved r) (Resolved (Response False body)) i st =
           (Inr (), st\<lparr>books := filter (\<lambda>book. book_id book \<noteq> i) (books st), isRefreshing := False\<rparr>)"
  using assms by (simp add: handleDeleteBook_def handleDeleteBook_pending_def revalidateBooks_def Let_def)

theorem reconciliation_failure_is_swallowed_witness:
  "success (deleteBookAction (\<lambda>i. Resolved ()) 1) \<and>
   handleDeleteBook (Resolved (deleteBookAction (\<lambda>i. Resolved ()) 1)) (Rejected (Error ''offline''))
       1 (idle [undated, dated1960]) = (Inr (), idle [dated1960]) \<and>
   handleDeleteBook (Resolved (deleteBookAction (\<lambda>i. Resolved ()) 1))
       (Resolved (Response False (Rejected (Error ''unused''))))
       1 ((idle [undated, dated1960])\<lparr>isRefreshing := True\<rparr>) = (Inr (), idle [dated1960])"
  using reconciliation_failure_is_swallowed [of "deleteBookAction (\<lambda>i. Resolved ()) 1"
      "Error ''offline''" 1 "idle [undated, dated1960]" "Rejected (Error ''unused'')"]
    reconciliation_failure_is_swallowed [of "deleteBookAction (\<lambda>i. Resolved ()) 1"
      "Error ''offline''" 1 "(idle [undated, dated1960])\<lparr>isRefreshing := True\<rparr>" "Rejected (Error ''unused'')"]
  by (simp add: deleteBookAction_def idle_def undated_def dated1960_def sampleBook_def)

section \<open>The search box\<close>

lemma handle_Change_idle:
  "timeout st = None \<Longrightarrow> handle now (Change v) st = st\<lparr>searchQuery := v, timeout := Some (now + delay)\<rparr>"
  by (simp add: handle_def elapse_def)

lemma handle_Change_pending:
  "timeout st = Some due \<Longrightarrow> now < due \<Longrightarrow>
   handle now (Change v) st = st\<lparr>searchQuery := v, timeout := Some (now + delay)\<rparr>"
  by (simp add: handle_def elapse_def)

lemma run_typing_pending:
  "timeout st = Some (t + delay) \<Longrightarrow> rapid t ins \<Longrightarrow>
   run (typing ins) st =
     (if ins = [] then st
      else st\<lparr>searchQuery := snd (last ins), timeout := Some (fst (last ins) + delay)\<rparr>)"
proof (induction ins arbitrary: st t)
  case Nil
  then show ?case by (simp add: typing_def)
next
  case (Cons p ins)
  obtain t' v where p: "p = (t', v)" by (cases p)
  from Cons.prems p have t': "t' < t + delay" and r: "rapid t' ins" by simp_all
  let ?st = "st\<lparr>searchQuery := v, timeout := Some (t' + delay)\<rparr>"
  have step: "handle t' (Change v) st = ?st"
    using Cons.prems(1) t' by (rule handle_Change_pending)
  have "run (typing (p # ins)) st = run (typing ins) ?st"
    using step by (simp add: typing_def p)
  also have "\<dots> = (if ins = [] then ?st
      else ?st\<lparr>searchQuery := snd (last ins), timeout := Some (fst (last ins) + delay)\<rparr>)"
    by (rule Cons.IH [OF _ r]) simp
  finally show ?case by (simp add: p)
qed

lemma run_typing_idle:
  assumes "timeout st = None" and "rapid t rest"
  shows "run (typing ((t, v) # rest)) st =
           st\<lparr>searchQuery := snd (last ((t, v) # rest)),
               timeout := Some (fst (last ((t, v) # rest)) + delay)\<rparr>"
proof -
  let ?st = "st\<lparr>searchQuery := v, timeout := Some (t + delay)\<rparr>"
  have "run (typing ((t, v) # rest)) st = run (typing rest) ?st"
    using handle_Change_idle [OF assms(1)] by (simp add: typing_def)
  also have "\<dots> = (if rest = [] then ?st
      else ?st\<lparr>searchQuery := snd (last rest), timeout := Some (fst (last rest) + delay)\<rparr>)"
    by (rule run_typing_pending [OF _ assms(2)]) simp
  finally show ?thesis by simp
qed

lemma sfilters_elapse: "sfilters (elapse now st) = sfilters st"
  by (simp add: elapse_def fire_def Let_def split: option.splits)

text \<open>
  One call of \<^verbatim>\<open>handleFilterChange\<close> from the current render reaches the explorer in the
  same step, whatever the timer.
\<close>

lemma handle_FilterChange:
  "filters (explorer (handle now (FilterChange c) st)) = setKey c (sfilters st)"
  by (simp add: handle_def handleFilterChange_def Let_def sfilters_elapse)

text \<open>
  The sort select: its second call of \<^verbatim>\<open>handleFilterChange\<close> spreads the same rendered
  \<^verbatim>\<open>filters\<close> as the first, so the options that reach the explorer carry the new
  \<^verbatim>\<open>sortOrder\<close> and the \<^verbatim>\<open>sortBy\<close> of before.
\<close>

lemma handle_SortChange:
  "filters (explorer (handle now (SortChange by order) st)) = (sfilters st)\<lparr>sortOrder := Some order\<rparr>"
  by (simp add: handle_def handleFilterChange_def Let_def sfilters_elapse)

text \<open>
  The debounce, on the hook as modelled from the spec. Inputs to the search box that follow
  one another within the delay, starting with no task pending, cause no call of
  \<^verbatim>\<open>onSearch\<close> while they arrive; once the delay has passed after the last of them there
  has been exactly one call, with the last value, and it is the query of the explorer.
  Typing \<open>a\<close>, \<open>ab\<close>, \<open>abc\<close> gives the single call with \<open>abc\<close>.
\<close>

lemma rapid_terms_collapse:
  assumes "timeout st = None" and "rapid t rest"
    and "fst (last ((t, v) # rest)) + delay \<le> T"
    and "snd (last ((t, v) # rest)) \<noteq> debouncedSearch st"
  shows "onSearchCalls (run (typing ((t, v) # rest)) st) = onSearchCalls st \<and>
         query (explorer (run (typing ((t, v) # rest)) st)) = query (explorer st) \<and>
         onSearchCalls (elapse T (run (typing ((t, v) # rest)) st)) =
           onSearchCalls st @ [snd (last ((t, v) # rest))] \<and>
         query (explorer (elapse T (run (typing ((t, v) # rest)) st))) = snd (last ((t, v) # rest))"
  using assms(3,4)
  by (simp add: run_typing_idle [OF assms(1,2)] elapse_def fire_def Let_def del: last.simps)

lemma rapid_terms_collapse_example:
  "onSearchCalls (run [(0, Change ''a''), (100, Change ''ab''), (200, Change ''abc'')] mounted) = [[]] \<and>
   onSearchCalls (elapse 500 (run [(0, Change ''a''), (100, Change ''ab''), (200, Change ''abc'')] mounted)) =
     [[], ''abc''] \<and>
   query (explorer (elapse 500 (run [(0, Change ''a''), (100, Change ''ab''), (200, Change ''abc'')] mounted))) =
     ''abc''"
  using rapid_terms_collapse [of mounted 0 "[(100, ''ab''), (200, ''abc'')]" "''a''" 500]
  by (simp add: mounted_def delay_def typing_def handle_def elapse_def fire_def idle_def Let_def)

text \<open>
  C9. The half about structured filters does not hold of the program for \<^verbatim>\<open>sortBy\<close>. The
  only control that sets \<^verbatim>\<open>sortBy\<close> is the sort select. Choosing "Price (Low to High)" on
  the page with the books \<open>undated\<close> (price 10) and \<open>dated1960\<close> (price 5) and no filter set
  leaves the explorer with \<^verbatim>\<open>sortOrder\<close> \<open>asc\<close> and no \<^verbatim>\<open>sortBy\<close>, in the same step and
  after any time has passed; the view keeps the order of the collection, where sorting by
  price ascending would put the cheaper book first.
\<close>

theorem sort_select_drops_sortBy:
  "filters (explorer (handle 0 (SortChange ''price'' ''asc'') (browsing [undated, dated1960]))) =
     noFilters\<lparr>sortOrder := Some ''asc''\<rparr> \<and>
   sortBy (filters (explorer (handle 0 (SortChange ''price'' ''asc'') (browsing [undated, dated1960])))) = None \<and>
   sortBy (filters (explorer (elapse 1000
     (handle 0 (SortChange ''price'' ''asc'') (browsing [undated, dated1960]))))) = None \<and>
   displayed codeUnitCompare parseSample
     (explorer (handle 0 (SortChange ''price'' ''asc'') (browsing [undated, dated1960]))) =
     [undated, dated1960] \<and>
   filteredBooks codeUnitCompare parseSample [undated, dated1960] [] priceAsc = [dated1960, undated]"
  by (simp add: handle_def handleFilterChange_def elapse_def browsing_def mounted_def idle_def noFilters_def
      Let_def displayed_def filteredBooks_def sortStage_def ratingStage_def priceStage_def genreStage_def
      textStage_def normalizedQuery_def toLowerCase_def trim_def truthyS_def truthyN_def priceAsc_def
      Array_sort_def compareBooks_def sortCompare_def orElse_def undated_def dated1960_def sampleBook_def)

end
